theory Spec2Isabelle
  imports Complex_Main
begin

section \<open>Data model\<close>

text \<open>
  \<^verbatim>\<open>fetch_data\<close> turns every kline row of the exchange's reply into a dict with the six
  keys below; \<^verbatim>\<open>timestamp\<close> stays what the JSON held, the other five pass through
  \<^verbatim>\<open>float(...)\<close>. In this first model Python floats are read as real numbers, which is
  what the claims about the value computed need; the range of the RSI depends on overflow,
  and a later section repeats \<^verbatim>\<open>calculate_rsi\<close> over floats with infinities and NaN. Python compares and adds \<^verbatim>\<open>int\<close> and \<^verbatim>\<open>float\<close> by value
  (\<^verbatim>\<open>0 == 0.0\<close>), so the integer literals \<^verbatim>\<open>0\<close>, \<^verbatim>\<open>30\<close>, \<^verbatim>\<open>70\<close>, \<^verbatim>\<open>100\<close> of the source are
  the reals of the same value.
\<close>

record candle =
  timestamp :: int
  "open" :: real
  high :: real
  low :: real
  close :: real
  volume :: real

text \<open>The only exception the indicator code can raise on a list of candles.\<close>

datatype error = ZeroDivisionError

text \<open>The values stored in the dict that \<^verbatim>\<open>generate_signal\<close> returns.\<close>

datatype pyval = Num real | Str string

section \<open>Python primitives the source relies on\<close>

text \<open>\<^verbatim>\<open>a / b\<close> raises on a zero divisor, for \<^verbatim>\<open>int\<close> and for \<^verbatim>\<open>float\<close> alike.\<close>

definition truediv :: "real \<Rightarrow> real \<Rightarrow> error + real" where
  "truediv a b = (if b = 0 then Inl ZeroDivisionError else Inr (a / b))"

text \<open>
  \<^verbatim>\<open>xs[k:]\<close>: a negative start counts from the end and is clipped at the front of the
  list, a start past the end gives the empty list. In particular \<^verbatim>\<open>xs[-0:]\<close> is all of
  \<^verbatim>\<open>xs\<close>.
\<close>

definition slice_from :: "'a list \<Rightarrow> int \<Rightarrow> 'a list" where
  "slice_from xs k =
     (let n = int (length xs);
          start = (if k < 0 then max 0 (n + k) else min k n)
      in drop (nat start) xs)"

section \<open>Indicators\<close>

text \<open>
  The local lists of \<^verbatim>\<open>calculate_rsi\<close>:
  \<^verbatim>\<open>closes = [p['close'] for p in prices]\<close>,
  \<^verbatim>\<open>deltas = [closes[i] - closes[i-1] for i in range(1, len(closes))]\<close>,
  \<^verbatim>\<open>gains = [d if d > 0 else 0 for d in deltas[-period:]]\<close> and
  \<^verbatim>\<open>losses = [-d if d < 0 else 0 for d in deltas[-period:]]\<close>.
\<close>

definition rsi_deltas :: "candle list \<Rightarrow> real list" where
  "rsi_deltas prices =
     (let closes = map close prices
      in map (\<lambda>i. closes ! i - closes ! (i - 1)) [1..<length closes])"

definition rsi_gains :: "candle list \<Rightarrow> int \<Rightarrow> real list" where
  "rsi_gains prices period =
     map (\<lambda>d. if d > 0 then d else 0) (slice_from (rsi_deltas prices) (- period))"

definition rsi_losses :: "candle list \<Rightarrow> int \<Rightarrow> real list" where
  "rsi_losses prices period =
     map (\<lambda>d. if d < 0 then - d else 0) (slice_from (rsi_deltas prices) (- period))"

definition calculate_rsi :: "candle list \<Rightarrow> int \<Rightarrow> error + real" where
  "calculate_rsi prices period =
     (if int (length prices) < period + 1 then Inr 50
      else
        (case truediv (sum_list (rsi_gains prices period)) (real_of_int period) of
           Inl e \<Rightarrow> Inl e
         | Inr avg_gain \<Rightarrow>
        (case truediv (sum_list (rsi_losses prices period)) (real_of_int period) of
           Inl e \<Rightarrow> Inl e
         | Inr avg_loss \<Rightarrow>
        if avg_loss = 0 then Inr 100
        else
          (case truediv avg_gain avg_loss of
             Inl e \<Rightarrow> Inl e
           | Inr rs \<Rightarrow>
          (case truediv 100 (1 + rs) of
             Inl e \<Rightarrow> Inl e
           | Inr q \<Rightarrow> Inr (100 - q))))))"

definition calculate_sma :: "candle list \<Rightarrow> int \<Rightarrow> error + real" where
  "calculate_sma prices period =
     (if int (length prices) < period then Inr 0
      else
        let closes = map close (slice_from prices (- period))
        in truediv (sum_list closes) (real_of_int period))"

section \<open>Classification and the signal record\<close>

text \<open>
  Lines 108 to 133 of \<^verbatim>\<open>generate_signal\<close>: two counters, two \<^verbatim>\<open>if\<close>/\<^verbatim>\<open>elif\<close> votes in
  sequence, then the decision. The step reads \<^verbatim>\<open>rsi\<close>, \<^verbatim>\<open>sma_20\<close> and \<^verbatim>\<open>sma_50\<close> only;
  \<^verbatim>\<open>current_price\<close> is copied into the result and never compared. The result is the
  triple \<^verbatim>\<open>(signal, strength, recommendation)\<close>.
\<close>

definition classify :: "real \<Rightarrow> real \<Rightarrow> real \<Rightarrow> string \<times> int \<times> string" where
  "classify rsi sma_20 sma_50 =
     (let buy_signals = 0;
          sell_signals = 0;
          (buy_signals, sell_signals) =
             (if rsi < 30 then (buy_signals + 1, sell_signals)
              else if rsi > 70 then (buy_signals, sell_signals + 1)
              else (buy_signals, sell_signals));
          (buy_signals, sell_signals) =
             (if sma_20 > sma_50 then (buy_signals + 1, sell_signals)
              else if sma_20 < sma_50 then (buy_signals, sell_signals + 1)
              else (buy_signals, sell_signals))
      in if buy_signals \<ge> 2 then (''BUY'', buy_signals, ''Strong BUY signal detected'')
         else if sell_signals \<ge> 2 then (''SELL'', sell_signals, ''Strong SELL signal detected'')
         else (''HOLD'', 0, ''No clear signal - HOLD position''))"

text \<open>
  \<^verbatim>\<open>generate_signal\<close>. Its three readings of the outside world are arguments: \<^verbatim>\<open>symbol\<close>
  is \<^verbatim>\<open>self.symbol\<close>, \<^verbatim>\<open>prices\<close> is what \<^verbatim>\<open>self.fetch_data(interval=interval, limit=100)\<close>
  returned (the empty list on any failure of the request), and \<^verbatim>\<open>now\<close> is the string
  \<^verbatim>\<open>datetime.now().strftime('%Y-%m-%d %H:%M:%S')\<close>. The returned dict is a map from key to
  value; \<^verbatim>\<open>prices[-1]\<close> is read only after the emptiness test.
\<close>

definition generate_signal :: "string \<Rightarrow> candle list \<Rightarrow> string \<Rightarrow> error + (string \<rightharpoonup> pyval)" where
  "generate_signal symbol prices now =
     (if prices = [] then
        Inr (map_of
          [(''symbol'', Str symbol),
           (''price'', Num 0),
           (''signal'', Str ''ERROR''),
           (''strength'', Num 0),
           (''rsi'', Num 0),
           (''sma_20'', Num 0),
           (''sma_50'', Num 0),
           (''recommendation'', Str ''Unable to fetch data'')])
      else
        let current_price = close (last prices) in
        (case calculate_rsi prices 14 of
           Inl e \<Rightarrow> Inl e
         | Inr rsi \<Rightarrow>
        (case calculate_sma prices 20 of
           Inl e \<Rightarrow> Inl e
         | Inr sma_20 \<Rightarrow>
        (case calculate_sma prices 50 of
           Inl e \<Rightarrow> Inl e
         | Inr sma_50 \<Rightarrow>
        (case classify rsi sma_20 sma_50 of
           (signal, strength, recommendation) \<Rightarrow>
             Inr (map_of
               [(''symbol'', Str symbol),
                (''price'', Num current_price),
                (''signal'', Str signal),
                (''strength'', Num (real_of_int strength)),
                (''rsi'', Num rsi),
                (''sma_20'', Num sma_20),
                (''sma_50'', Num sma_50),
                (''recommendation'', Str recommendation),
                (''timestamp'', Str now)]))))))"

text \<open>A candle whose five prices are all \<^verbatim>\<open>c\<close>, for writing concrete inputs.\<close>

definition flat_candle :: "int \<Rightarrow> real \<Rightarrow> candle" where
  "flat_candle t c =
     \<lparr>timestamp = t, open = c, high = c, low = c, close = c, volume = 0\<rparr>"

section \<open>The indicators in the specification's words\<close>

text \<open>
  The specification describes the indicators without slices: the close-to-close deltas
  of the whole sequence, the last \<^verbatim>\<open>n\<close> elements of a list, the arithmetic mean, and the
  relative strength index built from the sum of the positive deltas and the sum of the
  absolute values of the negative ones. These definitions follow that text, not the
  source; the theorems below compare them with the source's functions.
\<close>

definition close_deltas :: "candle list \<Rightarrow> real list" where
  "close_deltas prices =
     map (\<lambda>j. close (prices ! Suc j) - close (prices ! j)) [0..<length prices - 1]"




section \<open>The relative strength index over floats\<close>

text \<open>
  Whether the RSI stays between 0 and 100 depends on what the real numbers cannot show:
  a sum of finite floats can overflow to infinity, and infinity divided by infinity is
  NaN. This section repeats \<^verbatim>\<open>calculate_rsi\<close>, statement for statement, over Python's
  \<^verbatim>\<open>float\<close>. A float is a finite real, one of the two infinities, or NaN; \<^verbatim>\<open>float(...)\<close> in
  \<^verbatim>\<open>fetch_data\<close> accepts all of them. The two zeros are one value: Python raises on a
  division by either, so their sign is never observed here.
\<close>

datatype pyfloat = Fin real | PInf | NInf | NaN

text \<open>
  The format: \<^verbatim>\<open>rnd\<close> rounds an exact result to the nearest representable number as if
  the exponent were unbounded, \<^verbatim>\<open>fmax\<close> is the largest finite float. An operation on
  finite operands rounds its exact result and overflows to an infinity when the rounded
  value lies beyond \<^verbatim>\<open>fmax\<close>.
\<close>

record float_format =
  rnd :: "real \<Rightarrow> real"
  fmax :: real

definition fl :: "float_format \<Rightarrow> real \<Rightarrow> pyfloat" where
  "fl F x =
     (let y = rnd F x
      in if fmax F < y then PInf else if y < - fmax F then NInf else Fin y)"

text \<open>The candle dict with float prices.\<close>

record fcandle =
  ftimestamp :: int
  fopen :: pyfloat
  fhigh :: pyfloat
  flow :: pyfloat
  fclose :: pyfloat
  fvolume :: pyfloat

text \<open>
  Negation is exact. Addition and division follow IEEE 754 on the special values;
  \<^verbatim>\<open>a / b\<close> raises ZeroDivisionError on a zero divisor whatever the dividend, as Python
  does. \<^verbatim>\<open>d > 0\<close> and \<^verbatim>\<open>d < 0\<close> are false on NaN.
\<close>

fun fneg :: "pyfloat \<Rightarrow> pyfloat" where
  "fneg (Fin x) = Fin (- x)"
| "fneg PInf = NInf"
| "fneg NInf = PInf"
| "fneg NaN = NaN"

definition fadd :: "float_format \<Rightarrow> pyfloat \<Rightarrow> pyfloat \<Rightarrow> pyfloat" where
  "fadd F a b =
     (case a of
        NaN \<Rightarrow> NaN
      | PInf \<Rightarrow> (case b of NaN \<Rightarrow> NaN | NInf \<Rightarrow> NaN | PInf \<Rightarrow> PInf | Fin y \<Rightarrow> PInf)
      | NInf \<Rightarrow> (case b of NaN \<Rightarrow> NaN | PInf \<Rightarrow> NaN | NInf \<Rightarrow> NInf | Fin y \<Rightarrow> NInf)
      | Fin x \<Rightarrow> (case b of NaN \<Rightarrow> NaN | PInf \<Rightarrow> PInf | NInf \<Rightarrow> NInf | Fin y \<Rightarrow> fl F (x + y)))"

definition fsub :: "float_format \<Rightarrow> pyfloat \<Rightarrow> pyfloat \<Rightarrow> pyfloat" where
  "fsub F a b = fadd F a (fneg b)"

definition fdiv :: "float_format \<Rightarrow> pyfloat \<Rightarrow> pyfloat \<Rightarrow> error + pyfloat" where
  "fdiv F a b =
     (if b = Fin 0 then Inl ZeroDivisionError
      else Inr
        (case b of
           NaN \<Rightarrow> NaN
         | PInf \<Rightarrow> (case a of Fin x \<Rightarrow> Fin 0 | PInf \<Rightarrow> NaN | NInf \<Rightarrow> NaN | NaN \<Rightarrow> NaN)
         | NInf \<Rightarrow> (case a of Fin x \<Rightarrow> Fin 0 | PInf \<Rightarrow> NaN | NInf \<Rightarrow> NaN | NaN \<Rightarrow> NaN)
         | Fin y \<Rightarrow>
             (case a of
                Fin x \<Rightarrow> fl F (x / y)
              | PInf \<Rightarrow> (if 0 < y then PInf else NInf)
              | NInf \<Rightarrow> (if 0 < y then NInf else PInf)
              | NaN \<Rightarrow> NaN)))"

fun fpos :: "pyfloat \<Rightarrow> bool" where
  "fpos (Fin x) = (0 < x)"
| "fpos PInf = True"
| "fpos NInf = False"
| "fpos NaN = False"

fun fnegative :: "pyfloat \<Rightarrow> bool" where
  "fnegative (Fin x) = (x < 0)"
| "fnegative PInf = False"
| "fnegative NInf = True"
| "fnegative NaN = False"

text \<open>
  \<^verbatim>\<open>sum(xs)\<close> adds from the left, starting at 0. The integer operands of the source
  (\<^verbatim>\<open>0\<close>, \<^verbatim>\<open>1\<close>, \<^verbatim>\<open>100\<close> and the period) convert to floats exactly.
\<close>

definition fsum :: "float_format \<Rightarrow> pyfloat list \<Rightarrow> pyfloat" where
  "fsum F xs = foldl (fadd F) (Fin 0) xs"

text \<open>Lines 64 to 71 of \<^verbatim>\<open>calculate_rsi\<close>: the lists and the two averages.\<close>

definition rsi_deltas_f :: "float_format \<Rightarrow> fcandle list \<Rightarrow> pyfloat list" where
  "rsi_deltas_f F prices =
     (let closes = map fclose prices
      in map (\<lambda>i. fsub F (closes ! i) (closes ! (i - 1))) [1..<length closes])"

definition rsi_gains_f :: "float_format \<Rightarrow> fcandle list \<Rightarrow> int \<Rightarrow> pyfloat list" where
  "rsi_gains_f F prices period =
     map (\<lambda>d. if fpos d then d else Fin 0) (slice_from (rsi_deltas_f F prices) (- period))"

definition rsi_losses_f :: "float_format \<Rightarrow> fcandle list \<Rightarrow> int \<Rightarrow> pyfloat list" where
  "rsi_losses_f F prices period =
     map (\<lambda>d. if fnegative d then fneg d else Fin 0)
       (slice_from (rsi_deltas_f F prices) (- period))"

definition rsi_avg_gain_f :: "float_format \<Rightarrow> fcandle list \<Rightarrow> int \<Rightarrow> error + pyfloat" where
  "rsi_avg_gain_f F prices period =
     fdiv F (fsum F (rsi_gains_f F prices period)) (Fin (real_of_int period))"

definition rsi_avg_loss_f :: "float_format \<Rightarrow> fcandle list \<Rightarrow> int \<Rightarrow> error + pyfloat" where
  "rsi_avg_loss_f F prices period =
     fdiv F (fsum F (rsi_losses_f F prices period)) (Fin (real_of_int period))"

text \<open>Lines 73 to 78: the test on the average loss and the final formula.\<close>

definition rsi_tail_f :: "float_format \<Rightarrow> pyfloat \<Rightarrow> pyfloat \<Rightarrow> error + pyfloat" where
  "rsi_tail_f F avg_gain avg_loss =
     (if avg_loss = Fin 0 then Inr (Fin 100)
      else
        (case fdiv F avg_gain avg_loss of
           Inl e \<Rightarrow> Inl e
         | Inr rs \<Rightarrow>
        (case fdiv F (Fin 100) (fadd F (Fin 1) rs) of
           Inl e \<Rightarrow> Inl e
         | Inr q \<Rightarrow> Inr (fsub F (Fin 100) q))))"

definition calculate_rsi_f :: "float_format \<Rightarrow> fcandle list \<Rightarrow> int \<Rightarrow> error + pyfloat" where
  "calculate_rsi_f F prices period =
     (if int (length prices) < period + 1 then Inr (Fin 50)
      else
        (case rsi_avg_gain_f F prices period of
           Inl e \<Rightarrow> Inl e
         | Inr avg_gain \<Rightarrow>
        (case rsi_avg_loss_f F prices period of
           Inl e \<Rightarrow> Inl e
         | Inr avg_loss \<Rightarrow> rsi_tail_f F avg_gain avg_loss)))"

text \<open>
  What the theorems need of a rounding: it is monotone and leaves 0, 1 and 100 as they
  are, and 100 is a finite float. Rounding to nearest in binary64 is such a rounding.
\<close>

definition rounding_ok :: "float_format \<Rightarrow> bool" where
  "rounding_ok F =
     (mono (rnd F) \<and> rnd F 0 = 0 \<and> rnd F 1 = 1 \<and> rnd F 100 = 100 \<and> 100 \<le> fmax F)"

text \<open>
  The bounds of binary64 with the identity as rounding: it agrees with binary64 on every
  operation whose exact result is representable, which is the case for each operation
  on the concrete inputs below (integers and halves of small size, 0 and \<^verbatim>\<open>2 ^ 1023\<close>),
  up to the overflow itself.
\<close>

definition binary64_exact :: float_format where
  "binary64_exact = \<lparr>rnd = (\<lambda>x. x), fmax = 2 ^ 1024 - 2 ^ 971\<rparr>"

text \<open>A float candle whose five prices are all \<^verbatim>\<open>c\<close>, for writing concrete inputs.\<close>

definition flat_fcandle :: "int \<Rightarrow> pyfloat \<Rightarrow> fcandle" where
  "flat_fcandle t c =
     \<lparr>ftimestamp = t, fopen = c, fhigh = c, flow = c, fclose = c, fvolume = Fin 0\<rparr>"

text \<open>Signs of floats, and the pair of averages that makes the quotient NaN.\<close>

fun nonneg_f :: "pyfloat \<Rightarrow> bool" where
  "nonneg_f (Fin x) = (0 \<le> x)"
| "nonneg_f PInf = True"
| "nonneg_f NInf = False"
| "nonneg_f NaN = False"

fun nonpos_f :: "pyfloat \<Rightarrow> bool" where
  "nonpos_f (Fin x) = (x \<le> 0)"
| "nonpos_f PInf = False"
| "nonpos_f NInf = True"
| "nonpos_f NaN = False"

fun infinite_f :: "pyfloat \<Rightarrow> bool" where
  "infinite_f (Fin x) = False"
| "infinite_f PInf = True"
| "infinite_f NInf = True"
| "infinite_f NaN = False"

definition both_infinite :: "error + pyfloat \<Rightarrow> error + pyfloat \<Rightarrow> bool" where
  "both_infinite a l =
     (case a of Inl e \<Rightarrow> False
      | Inr x \<Rightarrow> (case l of Inl e \<Rightarrow> False | Inr y \<Rightarrow> infinite_f x \<and> infinite_f y))"

section \<open>Auxiliary facts\<close>


lemma slice_from_subset: "set (slice_from xs k) \<subseteq> set xs"
  by (simp add: slice_from_def Let_def set_drop_subset)


lemma rsi_deltas_close_deltas: "rsi_deltas prices = close_deltas prices"
  by (simp add: rsi_deltas_def close_deltas_def Let_def list_eq_iff_nth_eq)






lemma losses_zero:
  assumes "\<And>d. d \<in> set (rsi_deltas prices) \<Longrightarrow> 0 \<le> d"
  shows "sum_list (rsi_losses prices period) = 0"
proof -
  have "rsi_losses prices period = map (\<lambda>d. 0) (slice_from (rsi_deltas prices) (- period))"
    unfolding rsi_losses_def
  proof (rule map_cong [OF refl])
    fix d assume "d \<in> set (slice_from (rsi_deltas prices) (- period))"
    then have "d \<in> set (rsi_deltas prices)"
      using slice_from_subset [of "rsi_deltas prices" "- period"] by (rule subsetD [rotated])
    then have "0 \<le> d" by (rule assms)
    then show "(if d < 0 then - d else 0) = 0" by simp
  qed
  then show ?thesis by simp
qed

lemma rsi_no_losses:
  assumes "period \<noteq> 0" "period + 1 \<le> int (length prices)"
    and l: "sum_list (rsi_losses prices period) = 0"
  shows "calculate_rsi prices period = Inr 100"
  using assms(1,2) by (simp add: calculate_rsi_def truediv_def l)

lemma rising_deltas:
  assumes "length prices = 15"
    and "\<forall>i<14. close (prices ! Suc i) = close (prices ! i) + 1"
    and "d \<in> set (rsi_deltas prices)"
  shows "d = 1"
proof -
  have "set (rsi_deltas prices) = (\<lambda>j. close (prices ! Suc j) - close (prices ! j)) ` {0..<14}"
    unfolding rsi_deltas_close_deltas close_deltas_def using assms(1) by simp
  with assms(3) obtain j where j: "j < 14" and d: "d = close (prices ! Suc j) - close (prices ! j)"
    by auto
  from assms(2) j have "close (prices ! Suc j) = close (prices ! j) + 1" by blast
  with d show "d = 1" by simp
qed


subsection \<open>Floats\<close>

lemma rnd_mono: "rounding_ok F \<Longrightarrow> x \<le> y \<Longrightarrow> rnd F x \<le> rnd F y"
  unfolding rounding_ok_def by (blast dest: monoD)

lemma fl_nonneg:
  assumes ok: "rounding_ok F" and x: "0 \<le> x"
  shows "nonneg_f (fl F x)"
proof -
  have "rnd F 0 \<le> rnd F x" using ok x by (rule rnd_mono)
  moreover have "rnd F 0 = 0" "100 \<le> fmax F" using ok by (simp_all add: rounding_ok_def)
  ultimately show ?thesis by (simp add: fl_def Let_def)
qed

lemma fl_range:
  assumes ok: "rounding_ok F" and x: "0 \<le> x" "x \<le> 100"
  shows "\<exists>r. fl F x = Fin r \<and> 0 \<le> r \<and> r \<le> 100"
proof -
  have "rnd F 0 \<le> rnd F x" using ok x(1) by (rule rnd_mono)
  moreover have "rnd F x \<le> rnd F 100" using ok x(2) by (rule rnd_mono)
  moreover have "rnd F 0 = 0" "rnd F 100 = 100" "100 \<le> fmax F"
    using ok by (simp_all add: rounding_ok_def)
  ultimately show ?thesis by (simp add: fl_def Let_def)
qed

lemma fl_ge_one:
  assumes ok: "rounding_ok F" and x: "1 \<le> x"
  shows "fl F x = PInf \<or> (\<exists>s. fl F x = Fin s \<and> 1 \<le> s)"
proof -
  have "rnd F 1 \<le> rnd F x" using ok x by (rule rnd_mono)
  moreover have "rnd F 1 = 1" "100 \<le> fmax F" using ok by (simp_all add: rounding_ok_def)
  ultimately show ?thesis by (simp add: fl_def Let_def)
qed

lemma fadd_nonneg: "rounding_ok F \<Longrightarrow> nonneg_f a \<Longrightarrow> nonneg_f b \<Longrightarrow> nonneg_f (fadd F a b)"
  by (cases a; cases b) (simp_all add: fadd_def fl_nonneg)

lemma foldl_fadd_nonneg:
  "rounding_ok F \<Longrightarrow> nonneg_f acc \<Longrightarrow> (\<And>x. x \<in> set xs \<Longrightarrow> nonneg_f x)
     \<Longrightarrow> nonneg_f (foldl (fadd F) acc xs)"
  by (induction xs arbitrary: acc) (simp_all add: fadd_nonneg)

lemma fsum_nonneg:
  "rounding_ok F \<Longrightarrow> (\<And>x. x \<in> set xs \<Longrightarrow> nonneg_f x) \<Longrightarrow> nonneg_f (fsum F xs)"
  unfolding fsum_def by (rule foldl_fadd_nonneg) simp_all

lemma gain_nonneg: "fpos d \<Longrightarrow> nonneg_f d"
  by (cases d) simp_all

lemma loss_nonneg: "fnegative d \<Longrightarrow> nonneg_f (fneg d)"
  by (cases d) simp_all

lemma fsum_gains_nonneg: "rounding_ok F \<Longrightarrow> nonneg_f (fsum F (rsi_gains_f F prices period))"
  by (rule fsum_nonneg) (auto simp add: rsi_gains_f_def gain_nonneg)

lemma fsum_losses_nonneg: "rounding_ok F \<Longrightarrow> nonneg_f (fsum F (rsi_losses_f F prices period))"
  by (rule fsum_nonneg) (auto simp add: rsi_losses_f_def loss_nonneg)

lemma fdiv_period:
  assumes ok: "rounding_ok F" and s: "nonneg_f s" and p: "0 < p"
  shows "\<exists>a. fdiv F s (Fin p) = Inr a \<and> nonneg_f a"
  using assms by (cases s) (simp_all add: fdiv_def fl_nonneg)

lemma rsi_quotient_range:
  assumes ok: "rounding_ok F" and d: "d = PInf \<or> (\<exists>s. d = Fin s \<and> 1 \<le> s)"
  shows "\<exists>r. (case fdiv F (Fin 100) d of Inl e \<Rightarrow> Inl e | Inr q \<Rightarrow> Inr (fsub F (Fin 100) q))
              = Inr (Fin r) \<and> 0 \<le> r \<and> r \<le> 100"
proof -
  from d show ?thesis
  proof
    assume "d = PInf"
    then have "(case fdiv F (Fin 100) d of Inl e \<Rightarrow> Inl e | Inr q \<Rightarrow> Inr (fsub F (Fin 100) q))
                 = Inr (fl F 100)"
      by (simp add: fdiv_def fsub_def fadd_def)
    moreover from fl_range [OF ok, of 100] obtain r where "fl F 100 = Fin r" "0 \<le> r" "r \<le> 100"
      by auto
    ultimately show ?thesis by simp
  next
    assume "\<exists>s. d = Fin s \<and> 1 \<le> s"
    then obtain s where s: "d = Fin s" "1 \<le> s" by blast
    have "0 \<le> 100 / s" "100 / s \<le> 100" using s(2) by (simp_all add: divide_le_eq)
    from fl_range [OF ok this] obtain q where q: "fl F (100 / s) = Fin q" "0 \<le> q" "q \<le> 100"
      by blast
    have "(case fdiv F (Fin 100) d of Inl e \<Rightarrow> Inl e | Inr q \<Rightarrow> Inr (fsub F (Fin 100) q))
                 = Inr (fl F (100 - q))"
      using s q(1) by (simp add: fdiv_def fsub_def fadd_def)
    moreover have "0 \<le> 100 - q" "100 - q \<le> 100" using q by simp_all
    from fl_range [OF ok this] obtain r where "fl F (100 - q) = Fin r" "0 \<le> r" "r \<le> 100"
      by blast
    ultimately show ?thesis by simp
  qed
qed

lemma fl_nonpos:
  assumes ok: "rounding_ok F" and x: "x \<le> 0"
  shows "nonpos_f (fl F x)"
proof -
  have "rnd F x \<le> rnd F 0" using ok x by (rule rnd_mono)
  moreover have "rnd F 0 = 0" "100 \<le> fmax F" using ok by (simp_all add: rounding_ok_def)
  ultimately show ?thesis by (simp add: fl_def Let_def)
qed

lemma fdiv_neg_period:
  assumes ok: "rounding_ok F" and s: "nonneg_f s" and p: "p < 0"
  shows "\<exists>a. fdiv F s (Fin p) = Inr a \<and> nonpos_f a"
  using assms by (cases s) (simp_all add: fdiv_def fl_nonpos divide_nonneg_neg)

lemma rsi_tail_from_rs:
  assumes ok: "rounding_ok F" and nz: "l \<noteq> Fin 0"
    and rs: "fdiv F a l = Inr rs" "nonneg_f rs"
  shows "\<exists>r. rsi_tail_f F a l = Inr (Fin r) \<and> 0 \<le> r \<and> r \<le> 100"
proof -
  have d: "fadd F (Fin 1) rs = PInf \<or> (\<exists>s. fadd F (Fin 1) rs = Fin s \<and> 1 \<le> s)"
  proof (cases rs)
    case (Fin x)
    with rs(2) have "1 \<le> 1 + x" by simp
    from fl_ge_one [OF ok this] Fin show ?thesis by (simp add: fadd_def)
  next
    case PInf
    then show ?thesis by (simp add: fadd_def)
  next
    case NInf
    with rs(2) show ?thesis by simp
  next
    case NaN
    with rs(2) show ?thesis by simp
  qed
  from rsi_quotient_range [OF ok d] nz rs(1) show ?thesis
    by (simp add: rsi_tail_f_def)
qed

lemma rsi_tail_zero_loss: "\<exists>r. rsi_tail_f F a (Fin 0) = Inr (Fin r) \<and> 0 \<le> r \<and> r \<le> 100"
  by (simp add: rsi_tail_f_def)

lemma rsi_tail_range_pos:
  assumes ok: "rounding_ok F" and a: "nonneg_f a" and l: "nonneg_f l"
    and ninf: "\<not> (infinite_f a \<and> infinite_f l)"
  shows "\<exists>r. rsi_tail_f F a l = Inr (Fin r) \<and> 0 \<le> r \<and> r \<le> 100"
proof (cases "l = Fin 0")
  case True
  then show ?thesis by (simp add: rsi_tail_zero_loss)
next
  case nz: False
  have "\<exists>rs. fdiv F a l = Inr rs \<and> nonneg_f rs"
  proof (cases l)
    case (Fin y)
    with l nz have y: "0 < y" by simp
    from fdiv_period [OF ok a y] Fin show ?thesis by simp
  next
    case PInf
    with ninf a show ?thesis by (cases a) (simp_all add: fdiv_def)
  next
    case NInf
    with l show ?thesis by simp
  next
    case NaN
    with l show ?thesis by simp
  qed
  then obtain rs where "fdiv F a l = Inr rs" "nonneg_f rs" by blast
  with ok nz show ?thesis by (rule rsi_tail_from_rs)
qed

lemma rsi_tail_range_neg:
  assumes ok: "rounding_ok F" and a: "nonpos_f a" and l: "nonpos_f l"
    and ninf: "\<not> (infinite_f a \<and> infinite_f l)"
  shows "\<exists>r. rsi_tail_f F a l = Inr (Fin r) \<and> 0 \<le> r \<and> r \<le> 100"
proof (cases "l = Fin 0")
  case True
  then show ?thesis by (simp add: rsi_tail_zero_loss)
next
  case nz: False
  have "\<exists>rs. fdiv F a l = Inr rs \<and> nonneg_f rs"
  proof (cases l)
    case lf: (Fin y)
    with l nz have y: "y < 0" by simp
    show ?thesis
    proof (cases a)
      case (Fin x)
      with a have "x \<le> 0" by simp
      with y have "0 \<le> x / y" by (simp add: divide_nonpos_neg)
      from fl_nonneg [OF ok this] Fin lf nz show ?thesis by (simp add: fdiv_def)
    next
      case PInf
      with a show ?thesis by simp
    next
      case NInf
      with lf nz y show ?thesis by (simp add: fdiv_def)
    next
      case NaN
      with a show ?thesis by simp
    qed
  next
    case PInf
    with l show ?thesis by simp
  next
    case NInf
    with ninf a show ?thesis by (cases a) (simp_all add: fdiv_def)
  next
    case NaN
    with l show ?thesis by simp
  qed
  then obtain rs where "fdiv F a l = Inr rs" "nonneg_f rs" by blast
  with ok nz show ?thesis by (rule rsi_tail_from_rs)
qed

lemma rsi_tail_both_infinite:
  "infinite_f a \<Longrightarrow> infinite_f l \<Longrightarrow> rsi_tail_f F a l = Inr NaN"
  by (cases a; cases l) (simp_all add: rsi_tail_f_def fdiv_def fadd_def fsub_def)

lemma rsi_averages:
  assumes ok: "rounding_ok F" and p: "period \<noteq> 0"
  shows "\<exists>a l. rsi_avg_gain_f F prices period = Inr a \<and> rsi_avg_loss_f F prices period = Inr l
           \<and> (nonneg_f a \<and> nonneg_f l \<or> nonpos_f a \<and> nonpos_f l)"
proof (cases "0 < period")
  case True
  then have pp: "(0::real) < real_of_int period" by simp
  from fdiv_period [OF ok fsum_gains_nonneg [OF ok] pp]
  obtain a where a: "rsi_avg_gain_f F prices period = Inr a" "nonneg_f a"
    unfolding rsi_avg_gain_f_def by blast
  from fdiv_period [OF ok fsum_losses_nonneg [OF ok] pp]
  obtain l where l: "rsi_avg_loss_f F prices period = Inr l" "nonneg_f l"
    unfolding rsi_avg_loss_f_def by blast
  from a l show ?thesis by blast
next
  case False
  with p have pp: "real_of_int period < (0::real)" by simp
  from fdiv_neg_period [OF ok fsum_gains_nonneg [OF ok] pp]
  obtain a where a: "rsi_avg_gain_f F prices period = Inr a" "nonpos_f a"
    unfolding rsi_avg_gain_f_def by blast
  from fdiv_neg_period [OF ok fsum_losses_nonneg [OF ok] pp]
  obtain l where l: "rsi_avg_loss_f F prices period = Inr l" "nonpos_f l"
    unfolding rsi_avg_loss_f_def by blast
  from a l show ?thesis by blast
qed

lemma rounding_ok_binary64_exact: "rounding_ok binary64_exact"
  by (simp add: rounding_ok_def binary64_exact_def mono_def)

lemma alternating_overflow:
  assumes fl0: "fl F 0 = Fin 0" and flM: "fl F M = Fin M" and flmM: "fl F (- M) = Fin (- M)"
    and fl2: "fl F (M + M) = PInf" and pos: "0 < M"
  shows "calculate_rsi_f F
     [flat_fcandle 1 (Fin 0), flat_fcandle 2 (Fin M),
      flat_fcandle 3 (Fin 0), flat_fcandle 4 (Fin M),
      flat_fcandle 5 (Fin 0), flat_fcandle 6 (Fin M),
      flat_fcandle 7 (Fin 0), flat_fcandle 8 (Fin M),
      flat_fcandle 9 (Fin 0), flat_fcandle 10 (Fin M),
      flat_fcandle 11 (Fin 0), flat_fcandle 12 (Fin M),
      flat_fcandle 13 (Fin 0), flat_fcandle 14 (Fin M),
      flat_fcandle 15 (Fin 0)] 14
   = Inr NaN"
proof -
  let ?ps = "[flat_fcandle 1 (Fin 0), flat_fcandle 2 (Fin M),
      flat_fcandle 3 (Fin 0), flat_fcandle 4 (Fin M),
      flat_fcandle 5 (Fin 0), flat_fcandle 6 (Fin M),
      flat_fcandle 7 (Fin 0), flat_fcandle 8 (Fin M),
      flat_fcandle 9 (Fin 0), flat_fcandle 10 (Fin M),
      flat_fcandle 11 (Fin 0), flat_fcandle 12 (Fin M),
      flat_fcandle 13 (Fin 0), flat_fcandle 14 (Fin M),
      flat_fcandle 15 (Fin 0)]"
  have fl2': "fl F (2 * M) = PInf" using fl2 by simp
  have d: "rsi_deltas_f F ?ps
     = [Fin M, Fin (- M), Fin M, Fin (- M), Fin M, Fin (- M), Fin M, Fin (- M),
        Fin M, Fin (- M), Fin M, Fin (- M), Fin M, Fin (- M)]"
    by (simp add: rsi_deltas_f_def Let_def flat_fcandle_def upt_conv_Cons fsub_def fadd_def
        flM flmM)
  have g: "fsum F (rsi_gains_f F ?ps 14) = PInf"
    unfolding rsi_gains_f_def d using pos
    by (simp add: slice_from_def fsum_def fadd_def fl0 flM fl2 fl2')
  have l: "fsum F (rsi_losses_f F ?ps 14) = PInf"
    unfolding rsi_losses_f_def d using pos
    by (simp add: slice_from_def fsum_def fadd_def fl0 flM fl2 fl2')
  have ag: "rsi_avg_gain_f F ?ps 14 = Inr PInf"
    unfolding rsi_avg_gain_f_def g by (simp add: fdiv_def)
  have al: "rsi_avg_loss_f F ?ps 14 = Inr PInf"
    unfolding rsi_avg_loss_f_def l by (simp add: fdiv_def)
  show ?thesis
    unfolding calculate_rsi_f_def ag al by (simp add: rsi_tail_both_infinite)
qed

section \<open>Claims\<close>

text \<open>
  C1. For every input, the classification step casts exactly two votes: the RSI vote
  (buy when \<^verbatim>\<open>rsi < 30\<close>, otherwise sell when \<^verbatim>\<open>rsi > 70\<close>) and the trend vote (buy
  when \<^verbatim>\<open>sma_20 > sma_50\<close>, otherwise sell when \<^verbatim>\<open>sma_20 < sma_50\<close>, nothing on
  equality). It returns BUY with strength \<^verbatim>\<open>buy_count\<close> when \<^verbatim>\<open>buy_count >= 2\<close>, else SELL
  with strength \<^verbatim>\<open>sell_count\<close> when \<^verbatim>\<open>sell_count >= 2\<close>, else HOLD with strength 0, each
  with its recommendation text.
\<close>

theorem classify_votes:
  "classify rsi sma_20 sma_50 =
    (let buy_count = (if rsi < 30 then 1 else 0) + (if sma_20 > sma_50 then 1 else 0);
         sell_count = (if \<not> rsi < 30 \<and> rsi > 70 then 1 else 0)
                    + (if \<not> sma_20 > sma_50 \<and> sma_20 < sma_50 then 1 else 0)
     in if buy_count \<ge> 2 then (''BUY'', buy_count, ''Strong BUY signal detected'')
        else if sell_count \<ge> 2 then (''SELL'', sell_count, ''Strong SELL signal detected'')
        else (''HOLD'', 0, ''No clear signal - HOLD position''))"
  by (simp add: classify_def Let_def)

text \<open>
  C3. When the fetched candle sequence is empty, \<^verbatim>\<open>generate_signal\<close> returns a record with
  signal ERROR, strength 0, price 0, rsi 0, sma_20 0, sma_50 0 and the recommendation
  "Unable to fetch data".
\<close>

theorem generate_signal_empty:
  "\<exists>r. generate_signal symbol [] now = Inr r
     \<and> r ''signal'' = Some (Str ''ERROR'')
     \<and> r ''strength'' = Some (Num 0)
     \<and> r ''price'' = Some (Num 0)
     \<and> r ''rsi'' = Some (Num 0)
     \<and> r ''sma_20'' = Some (Num 0)
     \<and> r ''sma_50'' = Some (Num 0)
     \<and> r ''recommendation'' = Some (Str ''Unable to fetch data'')"
  by (simp add: generate_signal_def)

text \<open>
  C4. Every result of \<^verbatim>\<open>generate_signal\<close>, the one for an empty candle sequence included,
  is said to carry a \<^verbatim>\<open>timestamp\<close>. The dict returned for an empty sequence has no such
  key, whatever the symbol and the clock.
\<close>

theorem generate_signal_empty_no_timestamp:
  "\<exists>r. generate_signal symbol [] now = Inr r \<and> r ''timestamp'' = None"
  by (simp add: generate_signal_def)

text \<open>
  C5. For every candle sequence with fewer than \<^verbatim>\<open>period + 1\<close> candles, \<^verbatim>\<open>calculate_rsi\<close>
  returns exactly 50.
\<close>

theorem rsi_short:
  "int (length prices) < period + 1 \<Longrightarrow> calculate_rsi prices period = Inr 50"
  by (simp add: calculate_rsi_def)

theorem rsi_short_witness:
  "int (length [flat_candle 1 10, flat_candle 2 11]) < 14 + 1
   \<and> calculate_rsi [flat_candle 1 10, flat_candle 2 11] 14 = Inr 50"
  using rsi_short [of "[flat_candle 1 10, flat_candle 2 11]" 14] by simp

text \<open>
  C7. For every candle sequence the value \<^verbatim>\<open>calculate_rsi\<close> returns is said to lie in the
  closed interval from 0 to 100. On fifteen closes that alternate between 0 and
  \<^verbatim>\<open>2 ^ 1023\<close> (finite floats both) every delta is exact, the second gain and the second
  loss push both sums over the largest float, both averages are infinite, and the value
  returned at the default period 14 is NaN.
\<close>

theorem rsi_overflow_nan:
  "calculate_rsi_f binary64_exact
     [flat_fcandle 1 (Fin 0), flat_fcandle 2 (Fin (2 ^ 1023)),
      flat_fcandle 3 (Fin 0), flat_fcandle 4 (Fin (2 ^ 1023)),
      flat_fcandle 5 (Fin 0), flat_fcandle 6 (Fin (2 ^ 1023)),
      flat_fcandle 7 (Fin 0), flat_fcandle 8 (Fin (2 ^ 1023)),
      flat_fcandle 9 (Fin 0), flat_fcandle 10 (Fin (2 ^ 1023)),
      flat_fcandle 11 (Fin 0), flat_fcandle 12 (Fin (2 ^ 1023)),
      flat_fcandle 13 (Fin 0), flat_fcandle 14 (Fin (2 ^ 1023)),
      flat_fcandle 15 (Fin 0)] 14
   = Inr NaN"
proof (rule alternating_overflow)
  show "fl binary64_exact 0 = Fin 0" by (simp add: fl_def binary64_exact_def Let_def)
  show "fl binary64_exact (2 ^ 1023) = Fin (2 ^ 1023)"
    by (simp add: fl_def binary64_exact_def Let_def)
  show "fl binary64_exact (- (2 ^ 1023)) = Fin (- (2 ^ 1023))"
    by (simp add: fl_def binary64_exact_def Let_def)
  show "fl binary64_exact (2 ^ 1023 + 2 ^ 1023) = PInf"
    by (simp add: fl_def binary64_exact_def Let_def)
  show "(0::real) < 2 ^ 1023" by simp
qed

text \<open>
  C7, amended. For every candle sequence the value \<^verbatim>\<open>calculate_rsi\<close> returns lies in the
  closed interval from 0 to 100, unless the average gain and the average loss are both
  infinite (sums that overflow, or infinite closes); then it returns NaN. A value is
  returned for every period but 0: 50 for a sequence shorter than \<^verbatim>\<open>period + 1\<close>, and
  at period 0 a longer sequence raises ZeroDivisionError.
\<close>

theorem rsi_range_unless_overflow:
  assumes ok: "rounding_ok F"
  shows "if int (length prices) < period + 1 then calculate_rsi_f F prices period = Inr (Fin 50)
         else if period = 0 then calculate_rsi_f F prices period = Inl ZeroDivisionError
         else if both_infinite (rsi_avg_gain_f F prices period) (rsi_avg_loss_f F prices period)
           then calculate_rsi_f F prices period = Inr NaN
         else (\<exists>r. calculate_rsi_f F prices period = Inr (Fin r) \<and> 0 \<le> r \<and> r \<le> 100)"
proof (cases "int (length prices) < period + 1")
  case True
  then show ?thesis by (simp add: calculate_rsi_f_def)
next
  case long: False
  show ?thesis
  proof (cases "period = 0")
    case True
    with long show ?thesis
      by (simp add: calculate_rsi_f_def rsi_avg_gain_f_def fdiv_def)
  next
    case nz: False
    from rsi_averages [OF ok nz, of prices]
    obtain a l where a: "rsi_avg_gain_f F prices period = Inr a"
      and l: "rsi_avg_loss_f F prices period = Inr l"
      and sg: "nonneg_f a \<and> nonneg_f l \<or> nonpos_f a \<and> nonpos_f l"
      by blast
    have c: "calculate_rsi_f F prices period = rsi_tail_f F a l"
      using long a l by (simp add: calculate_rsi_f_def)
    show ?thesis
    proof (cases "infinite_f a \<and> infinite_f l")
      case True
      then have "rsi_tail_f F a l = Inr NaN" by (simp add: rsi_tail_both_infinite)
      with True c long nz a l show ?thesis by (simp add: both_infinite_def)
    next
      case False
      have "\<exists>r. rsi_tail_f F a l = Inr (Fin r) \<and> 0 \<le> r \<and> r \<le> 100"
        using sg
      proof
        assume "nonneg_f a \<and> nonneg_f l"
        with ok False show ?thesis by (simp add: rsi_tail_range_pos)
      next
        assume "nonpos_f a \<and> nonpos_f l"
        with ok False show ?thesis by (simp add: rsi_tail_range_neg)
      qed
      with False c long nz a l show ?thesis by (auto simp add: both_infinite_def)
    qed
  qed
qed

theorem rsi_range_unless_overflow_witness:
  "rounding_ok binary64_exact
   \<and> calculate_rsi_f binary64_exact
        [flat_fcandle 1 (Fin 10), flat_fcandle 2 (Fin 12), flat_fcandle 3 (Fin 11),
         flat_fcandle 4 (Fin 14)] 2
      = Inr (Fin 75)
   \<and> (0::real) \<le> 75 \<and> (75::real) \<le> 100"
proof -
  let ?ps = "[flat_fcandle 1 (Fin 10), flat_fcandle 2 (Fin 12), flat_fcandle 3 (Fin 11),
         flat_fcandle 4 (Fin 14)]"
  have d: "rsi_deltas_f binary64_exact ?ps = [Fin 2, Fin (- 1), Fin 3]"
    by (simp add: rsi_deltas_f_def Let_def flat_fcandle_def upt_conv_Cons fsub_def fadd_def
        fl_def binary64_exact_def)
  have ag: "rsi_avg_gain_f binary64_exact ?ps 2 = Inr (Fin (3 / 2))"
    unfolding rsi_avg_gain_f_def rsi_gains_f_def d
    by (simp add: slice_from_def fsum_def fadd_def fdiv_def fl_def binary64_exact_def Let_def)
  have al: "rsi_avg_loss_f binary64_exact ?ps 2 = Inr (Fin (1 / 2))"
    unfolding rsi_avg_loss_f_def rsi_losses_f_def d
    by (simp add: slice_from_def fsum_def fadd_def fdiv_def fl_def binary64_exact_def Let_def)
  have v: "calculate_rsi_f binary64_exact ?ps 2 = Inr (Fin 75)"
    unfolding calculate_rsi_f_def ag al
    by (simp add: rsi_tail_f_def fdiv_def fadd_def fsub_def fl_def binary64_exact_def Let_def)
  from rsi_range_unless_overflow [OF rounding_ok_binary64_exact, of ?ps 2] v
    rounding_ok_binary64_exact
  show ?thesis by simp
qed

text \<open>
  C10. For every input to the classification step the strength is 0 or 2: the signal is
  BUY exactly when \<^verbatim>\<open>rsi < 30\<close> and \<^verbatim>\<open>sma_20 > sma_50\<close>, SELL exactly when \<^verbatim>\<open>rsi > 70\<close> and
  \<^verbatim>\<open>sma_20 < sma_50\<close>, and HOLD with strength 0 in every other case.
\<close>

theorem classify_strength:
  "classify rsi sma_20 sma_50 =
     (if rsi < 30 \<and> sma_20 > sma_50 then (''BUY'', 2, ''Strong BUY signal detected'')
      else if rsi > 70 \<and> sma_20 < sma_50 then (''SELL'', 2, ''Strong SELL signal detected'')
      else (''HOLD'', 0, ''No clear signal - HOLD position''))
   \<and> fst (snd (classify rsi sma_20 sma_50)) \<in> {0, 2}
   \<and> (fst (classify rsi sma_20 sma_50) = ''BUY'') = (rsi < 30 \<and> sma_20 > sma_50)
   \<and> (fst (classify rsi sma_20 sma_50) = ''SELL'') = (rsi > 70 \<and> sma_20 < sma_50)"
  by (simp add: classify_def Let_def)




text \<open>
  C9. The classifier is monotonic in its two votes: when two inputs both yield BUY and
  every BUY vote of the first (RSI below 30, the 20-candle average above the 50-candle
  one) is also cast by the second, the strength of the second is not smaller than the
  strength of the first.
\<close>

theorem classify_buy_monotone:
  "classify rsi1 a1 b1 = (''BUY'', s1, r1) \<Longrightarrow>
   classify rsi2 a2 b2 = (''BUY'', s2, r2) \<Longrightarrow>
   (rsi1 < 30 \<longrightarrow> rsi2 < 30) \<Longrightarrow>
   (a1 > b1 \<longrightarrow> a2 > b2) \<Longrightarrow>
   s1 \<le> s2"
  by (auto simp add: classify_def Let_def split: if_splits)

theorem classify_buy_monotone_witness:
  "classify 25 110 100 = (''BUY'', 2, ''Strong BUY signal detected'')
   \<and> classify 20 120 100 = (''BUY'', 2, ''Strong BUY signal detected'')
   \<and> (2::int) \<le> 2"
proof -
  have a: "classify 25 110 100 = (''BUY'', 2, ''Strong BUY signal detected'')"
    by (simp add: classify_def)
  have b: "classify 20 120 100 = (''BUY'', 2, ''Strong BUY signal detected'')"
    by (simp add: classify_def)
  have c: "(25::real) < 30 \<longrightarrow> (20::real) < 30" by simp
  have d: "(110::real) > 100 \<longrightarrow> (120::real) > 100" by simp
  from classify_buy_monotone [OF a b c d] a b show ?thesis by simp
qed




text \<open>
  C8. For 14 closes that rise by 1 at each step, \<^verbatim>\<open>calculate_rsi\<close> is said to return 100.
  Fourteen candles are fewer than \<^verbatim>\<open>period + 1 = 15\<close>, so the length guard answers first
  and the result is the neutral 50.
\<close>

theorem rsi_fourteen_rising_closes:
  "calculate_rsi
     [flat_candle 1 1, flat_candle 2 2, flat_candle 3 3, flat_candle 4 4, flat_candle 5 5,
      flat_candle 6 6, flat_candle 7 7, flat_candle 8 8, flat_candle 9 9, flat_candle 10 10,
      flat_candle 11 11, flat_candle 12 12, flat_candle 13 13, flat_candle 14 14] 14
   = Inr 50
   \<and> calculate_rsi
     [flat_candle 1 1, flat_candle 2 2, flat_candle 3 3, flat_candle 4 4, flat_candle 5 5,
      flat_candle 6 6, flat_candle 7 7, flat_candle 8 8, flat_candle 9 9, flat_candle 10 10,
      flat_candle 11 11, flat_candle 12 12, flat_candle 13 13, flat_candle 14 14] 14
   \<noteq> Inr 100"
  by (simp add: calculate_rsi_def)

text \<open>
  C8, amended. For a candle sequence of 15 closes (14 deltas) that rise by 1 at each
  step, all deltas are positive, the average loss is 0, and \<^verbatim>\<open>calculate_rsi\<close> returns
  exactly 100.
\<close>

theorem rsi_fifteen_rising_closes:
  assumes "length prices = 15"
    and "\<forall>i<14. close (prices ! Suc i) = close (prices ! i) + 1"
  shows "(\<forall>d\<in>set (rsi_deltas prices). 0 < d)
       \<and> truediv (sum_list (rsi_losses prices 14)) 14 = Inr 0
       \<and> calculate_rsi prices 14 = Inr 100"
proof -
  have pos: "\<forall>d\<in>set (rsi_deltas prices). 0 < d"
  proof
    fix d assume "d \<in> set (rsi_deltas prices)"
    with assms have "d = 1" by (rule rising_deltas)
    then show "0 < d" by simp
  qed
  have nn: "\<And>d. d \<in> set (rsi_deltas prices) \<Longrightarrow> 0 \<le> d"
    using pos by (simp add: less_imp_le)
  have nz: "(14::int) \<noteq> 0" by simp
  have len: "(14::int) + 1 \<le> int (length prices)" using assms(1) by simp
  have l: "sum_list (rsi_losses prices 14) = 0"
    by (rule losses_zero [OF nn])
  have r: "calculate_rsi prices 14 = Inr 100"
    by (rule rsi_no_losses [OF nz len l])
  have t: "truediv (sum_list (rsi_losses prices 14)) 14 = Inr 0"
    by (simp add: truediv_def l)
  from pos t r show ?thesis by blast
qed

theorem rsi_fifteen_rising_closes_witness:
  "length [flat_candle 1 1, flat_candle 2 2, flat_candle 3 3, flat_candle 4 4, flat_candle 5 5,
      flat_candle 6 6, flat_candle 7 7, flat_candle 8 8, flat_candle 9 9, flat_candle 10 10,
      flat_candle 11 11, flat_candle 12 12, flat_candle 13 13, flat_candle 14 14,
      flat_candle 15 15] = 15
   \<and> calculate_rsi
     [flat_candle 1 1, flat_candle 2 2, flat_candle 3 3, flat_candle 4 4, flat_candle 5 5,
      flat_candle 6 6, flat_candle 7 7, flat_candle 8 8, flat_candle 9 9, flat_candle 10 10,
      flat_candle 11 11, flat_candle 12 12, flat_candle 13 13, flat_candle 14 14,
      flat_candle 15 15] 14
   = Inr 100"
proof -
  let ?ps = "[flat_candle 1 1, flat_candle 2 2, flat_candle 3 3, flat_candle 4 4, flat_candle 5 5,
      flat_candle 6 6, flat_candle 7 7, flat_candle 8 8, flat_candle 9 9, flat_candle 10 10,
      flat_candle 11 11, flat_candle 12 12, flat_candle 13 13, flat_candle 14 14,
      flat_candle 15 15]"
  have h1: "length ?ps = 15" by simp
  have n: "(14::nat) = Suc (Suc (Suc (Suc (Suc (Suc (Suc (Suc (Suc (Suc (Suc (Suc (Suc (Suc 0)))))))))))))"
    by simp
  have h2: "\<forall>i<14. close (?ps ! Suc i) = close (?ps ! i) + 1"
    unfolding n by (simp add: flat_candle_def All_less_Suc)
  from rsi_fifteen_rising_closes [OF h1 h2] h1 show ?thesis by blast
qed

end
